theory Spec2Isabelle
  imports Main "HOL-Library.AList" "HOL-Library.Word"
begin

section \<open>The fragment of Go and of package reflect that kiss\_orm.go relies on\<close>

text \<open>
  Go types. The fragment has the kinds the mapping code distinguishes: basic types, the
  empty interface \<^verbatim>\<open>interface{}\<close>, pointers, slices and named struct types. A struct type
  carries its name and its declared fields; a field carries its name, whether it is exported
  (what \<^verbatim>\<open>StructField.IsExported\<close> reports: Go exports a field whose name starts with an
  upper-case letter), the value of the \<^verbatim>\<open>gorm\<close> key of its struct tag (what
  \<^verbatim>\<open>Tag.Get("gorm")\<close> returns, empty when the key is absent) and its type.
\<close>

datatype gtype =
    TBool
  | TInt
  | TString
  | TInterface
  | TPtr gtype
  | TSlice gtype
  | TStruct string "field list"
and field = Field (fname: string) (exported: bool) (ftag: string) (ftype: gtype)

datatype kind = KBool | KInt | KString | KInterface | KPtr | KSlice | KStruct

fun Kind :: "gtype \<Rightarrow> kind" where
  "Kind TBool = KBool"
| "Kind TInt = KInt"
| "Kind TString = KString"
| "Kind TInterface = KInterface"
| "Kind (TPtr _) = KPtr"
| "Kind (TSlice _) = KSlice"
| "Kind (TStruct _ _) = KStruct"

text \<open>\<^verbatim>\<open>Type.Elem()\<close> of a pointer or slice type (it panics on the other kinds).\<close>

fun Elem_type :: "gtype \<Rightarrow> gtype option" where
  "Elem_type (TPtr t) = Some t"
| "Elem_type (TSlice t) = Some t"
| "Elem_type _ = None"

fun fields_of :: "gtype \<Rightarrow> field list" where
  "fields_of (TStruct _ fs) = fs"
| "fields_of _ = []"

text \<open>
  Go data. A value does not carry its type: as in Go, the type comes with the variable, the
  struct field or the interface that holds the value. \<open>VPtr None\<close> is the nil pointer,
  \<open>VPtr (Some v)\<close> a pointer to a variable that holds \<open>v\<close>. \<open>VIface None\<close> is the
  nil interface, \<open>VIface (Some (t, v))\<close> an interface that holds the value \<open>v\<close> of
  dynamic type \<open>t\<close>. Go's \<^verbatim>\<open>int\<close> has 64 bits.
\<close>

datatype gval =
    VBool bool
  | VInt "64 word"
  | VString string
  | VIface "(gtype \<times> gval) option"
  | VPtr "gval option"
  | VSlice "gval list"
  | VStruct "gval list"

text \<open>
  An \<^verbatim>\<open>interface{}\<close> value is nil or a dynamic type with a value of that type;
  \<^verbatim>\<open>reflect.ValueOf\<close> of nil is the zero \<^verbatim>\<open>reflect.Value\<close>, whose \<^verbatim>\<open>Type()\<close> panics.
\<close>

type_synonym iface = "(gtype \<times> gval) option"

text \<open>The zero value of a type, as \<^verbatim>\<open>reflect.New\<close> allocates it.\<close>

fun zero_val :: "gtype \<Rightarrow> gval"
  and zero_fields :: "field list \<Rightarrow> gval list"
  and zero_field :: "field \<Rightarrow> gval" where
  "zero_val TBool = VBool False"
| "zero_val TInt = VInt 0"
| "zero_val TString = VString []"
| "zero_val TInterface = VIface None"
| "zero_val (TPtr _) = VPtr None"
| "zero_val (TSlice _) = VSlice []"
| "zero_val (TStruct _ fs) = VStruct (zero_fields fs)"
| "zero_fields [] = []"
| "zero_fields (f # fs) = zero_field f # zero_fields fs"
| "zero_field (Field _ _ _ t) = zero_val t"

text \<open>
  Convertibility (\<^verbatim>\<open>Type.ConvertibleTo\<close>, \<^verbatim>\<open>Value.Convert\<close>) on this fragment. Two types
  have identical underlying types, struct tags ignored, when they agree once the tags are
  erased everywhere and the name of the outermost struct type is dropped. Every type
  implements the empty interface, so every type is convertible to it.
\<close>

fun strip :: "gtype \<Rightarrow> gtype"
  and strip_fields :: "field list \<Rightarrow> field list"
  and strip_field :: "field \<Rightarrow> field" where
  "strip TBool = TBool"
| "strip TInt = TInt"
| "strip TString = TString"
| "strip TInterface = TInterface"
| "strip (TPtr t) = TPtr (strip t)"
| "strip (TSlice t) = TSlice (strip t)"
| "strip (TStruct n fs) = TStruct n (strip_fields fs)"
| "strip_fields [] = []"
| "strip_fields (f # fs) = strip_field f # strip_fields fs"
| "strip_field (Field n e _ t) = Field n e [] (strip t)"

fun underlying :: "gtype \<Rightarrow> gtype" where
  "underlying (TStruct _ fs) = TStruct [] fs"
| "underlying t = t"

definition haveIdenticalUnderlyingType :: "gtype \<Rightarrow> gtype \<Rightarrow> bool" where
  "haveIdenticalUnderlyingType T V = (strip (underlying T) = strip (underlying V))"

definition ConvertibleTo :: "gtype \<Rightarrow> gtype \<Rightarrow> bool" where
  "ConvertibleTo src dst =
     ((src = TInt \<and> dst = TString)
      \<or> haveIdenticalUnderlyingType dst src
      \<or> dst = TInterface
      \<or> (case (dst, src) of
            (TPtr d, TPtr s) \<Rightarrow> haveIdenticalUnderlyingType d s
          | _ \<Rightarrow> False))"

text \<open>
  Converting an integer to a string gives the UTF-8 encoding of the code point, and the
  replacement character U+FFFD when the integer is no valid code point.
\<close>

definition cvtIntString :: "64 word \<Rightarrow> string" where
  "cvtIntString w =
     (let x = sint w in
      if x < 0 \<or> 1114111 < x \<or> (55296 \<le> x \<and> x \<le> 57343)
      then [char_of (239 :: int), char_of (191 :: int), char_of (189 :: int)]
      else if x < 128 then [char_of x]
      else if x < 2048 then [char_of (192 + x div 64), char_of (128 + x mod 64)]
      else if x < 65536 then
        [char_of (224 + x div 4096), char_of (128 + (x div 64) mod 64),
         char_of (128 + x mod 64)]
      else
        [char_of (240 + x div 262144), char_of (128 + (x div 4096) mod 64),
         char_of (128 + (x div 64) mod 64), char_of (128 + x mod 64)])"

text \<open>
  A conversion to the empty interface wraps the value with its type. Every other conversion
  of the fragment keeps the data and changes the type only.
\<close>

definition Convert :: "gtype \<Rightarrow> gval \<Rightarrow> gtype \<Rightarrow> gval" where
  "Convert src v dst =
     (if src = TInt \<and> dst = TString
      then (case v of VInt w \<Rightarrow> VString (cvtIntString w) | _ \<Rightarrow> v)
      else if dst = TInterface \<and> src \<noteq> TInterface then VIface (Some (src, v))
      else v)"

text \<open>
  \<^verbatim>\<open>Value.Elem()\<close> of a pointer: the variable it points to, and the zero
  \<^verbatim>\<open>reflect.Value\<close> (here \<open>None\<close>) for the nil pointer. \<^verbatim>\<open>Value.Field(i)\<close> of a struct.
\<close>

fun Elem_val :: "gval \<Rightarrow> gval option" where
  "Elem_val (VPtr p) = p"
| "Elem_val _ = None"

fun Field_val :: "gval \<Rightarrow> nat \<Rightarrow> gval option" where
  "Field_val (VStruct vs) i = (if i < length vs then Some (vs ! i) else None)"
| "Field_val _ i = None"

fun set_Field :: "gval \<Rightarrow> nat \<Rightarrow> gval \<Rightarrow> gval" where
  "set_Field (VStruct vs) i x = VStruct (vs[i := x])"
| "set_Field v i x = v"

text \<open>
  \<^verbatim>\<open>Value.Interface()\<close> of a value of type \<open>t\<close>: the value with its type, and for a value
  of interface kind what the interface holds, which is nil for the nil interface. It panics on
  a value obtained through an unexported field, and so does \<^verbatim>\<open>Value.Set\<close>; the functions
  that call them test the field first.
\<close>

definition Interface_of :: "gtype \<Rightarrow> gval \<Rightarrow> (gtype \<times> gval) option" where
  "Interface_of t v =
     (if Kind t = KInterface then (case v of VIface x \<Rightarrow> x | _ \<Rightarrow> None) else Some (t, v))"

section \<open>Errors\<close>

text \<open>
  The errors of kiss\_orm.go are built by \<^verbatim>\<open>fmt.Errorf\<close>: the model keeps the format and
  the arguments handed to it (\<open>ArgS\<close> a string printed with \<^verbatim>\<open>%s\<close>, \<open>ArgV\<close> a
  \<^verbatim>\<open>reflect.Type\<close> printed with \<^verbatim>\<open>%v\<close>, \<open>ArgT\<close> the dynamic type of a value printed
  with \<^verbatim>\<open>%T\<close>). \<open>DbError\<close> is an error returned by the gorm collaborator. \<open>Panic\<close>
  is not a returned error: it is the run-time panic of package reflect, which ends the call.
\<close>

datatype fmt_arg = ArgS string | ArgV gtype | ArgT gtype

datatype error =
    Errorf string "fmt_arg list"
  | DbError string
  | Panic string

definition msg_StructToMap :: string where
  "msg_StructToMap = ''input must be a struct or struct pointer''"

definition msg_Fill_not_ptr :: string where
  "msg_Fill_not_ptr = ''FillStructWith: expected input to be a pointer to struct but got %T''"

definition msg_Fill_not_struct :: string where
  "msg_Fill_not_struct = ''FillStructWith: expected input kind to be a struct but got %T''"

definition msg_Fill_convert :: string where
  "msg_Fill_convert = ''FillStructWith: cannot convert atribute %s of type %v to type %T''"

definition msg_List_not_ptr :: string where
  "msg_List_not_ptr = ''FillListWith: expected input to be a pointer to struct but got %T''"

definition msg_List_not_slice :: string where
  "msg_List_not_slice = ''FillListWith: expected input kind to be a slice but got %T''"

definition msg_List_not_structs :: string where
  "msg_List_not_structs = ''FillListWith: expected input to be a slice of structs but got %T''"

text \<open>
  The spec's error taxonomy: a ShapeError is one of the six errors about the shape of the
  argument; a TypeMismatch is the conversion error of \<^verbatim>\<open>FillStructWith\<close>.
\<close>

fun is_ShapeError :: "error \<Rightarrow> bool" where
  "is_ShapeError (Errorf m args) =
     (m = msg_StructToMap \<or> m = msg_Fill_not_ptr \<or> m = msg_Fill_not_struct
      \<or> m = msg_List_not_ptr \<or> m = msg_List_not_slice \<or> m = msg_List_not_structs)"
| "is_ShapeError _ = False"

fun is_TypeMismatch :: "error \<Rightarrow> bool" where
  "is_TypeMismatch (Errorf m args) = (m = msg_Fill_convert)"
| "is_TypeMismatch _ = False"

section \<open>The type descriptor cache\<close>

text \<open>
  A Go map is an association list with distinct keys: \<open>AList.update\<close> is \<^verbatim>\<open>m[k] = v\<close>,
  \<open>AList.delete\<close> is \<^verbatim>\<open>delete(m, k)\<close>, and indexing a missing key gives the zero value of
  the element type. Go fixes no iteration order, so a map that is ranged over is given as a
  list in the order the run time happens to visit it.
\<close>

record structInfo =
  Names :: "(nat \<times> string) list"
  Index :: "(string \<times> nat) list"

definition Names_at :: "structInfo \<Rightarrow> nat \<Rightarrow> string" where
  "Names_at info i = (case map_of (Names info) i of None \<Rightarrow> [] | Some n \<Rightarrow> n)"

definition Index_at :: "structInfo \<Rightarrow> string \<Rightarrow> nat" where
  "Index_at info c = (case map_of (Index info) c of None \<Rightarrow> 0 | Some i \<Rightarrow> i)"

fun getTagNames_loop :: "nat \<Rightarrow> field list \<Rightarrow> structInfo \<Rightarrow> structInfo" where
  "getTagNames_loop i [] info = info"
| "getTagNames_loop i (f # fs) info =
     (if ftag f = [] then getTagNames_loop (Suc i) fs info
      else getTagNames_loop (Suc i) fs
             (info\<lparr>Names := AList.update i (ftag f) (Names info),
                   Index := AList.update (ftag f) i (Index info)\<rparr>))"

definition getTagNames :: "gtype \<Rightarrow> structInfo" where
  "getTagNames t = getTagNames_loop 0 (fields_of t) \<lparr>Names = [], Index = []\<rparr>"

text \<open>
  The package state: the variable \<^verbatim>\<open>tagInfoCache\<close>, and a probe that records every call of
  \<^verbatim>\<open>getTagNames\<close> with its argument (the probe is not in the source; it makes the number of
  reflective scans observable).
\<close>

record pkg_state =
  tagInfoCache :: "(gtype \<times> structInfo) list"
  scanned :: "gtype list"

definition init_state :: pkg_state where
  "init_state = \<lparr>tagInfoCache = [], scanned = []\<rparr>"

text \<open>A call of \<^verbatim>\<open>getTagNames\<close> as the program makes it: the probe records the call.\<close>

definition getTagNames_call :: "gtype \<Rightarrow> pkg_state \<Rightarrow> structInfo \<times> pkg_state" where
  "getTagNames_call t s = (getTagNames t, s\<lparr>scanned := scanned s @ [t]\<rparr>)"

text \<open>
  The lookup that \<^verbatim>\<open>StructToMap\<close>, \<^verbatim>\<open>FillStructWith\<close> and \<^verbatim>\<open>FillSliceWith\<close> each write out:
  \<^verbatim>\<open>info, found := tagInfoCache[t]; if !found { info = getTagNames(t); tagInfoCache[t] = info }\<close>.
\<close>

definition cached_info :: "gtype \<Rightarrow> pkg_state \<Rightarrow> structInfo \<times> pkg_state" where
  "cached_info t s =
     (case map_of (tagInfoCache s) t of
        Some info \<Rightarrow> (info, s)
      | None \<Rightarrow>
          (let (info, s) = getTagNames_call t s
           in (info, s\<lparr>tagInfoCache := AList.update t info (tagInfoCache s)\<rparr>)))"

section \<open>The record/row codec\<close>

type_synonym row = "(string \<times> iface) list"

text \<open>
  The loop of \<^verbatim>\<open>StructToMap\<close> over the field positions \<open>i\<close>, \<open>i + 1\<close>, ... of the struct
  value \<open>v\<close>; \<open>fs\<close> are the declarations of the fields still to visit.
\<close>

fun StructToMap_loop :: "structInfo \<Rightarrow> gval \<Rightarrow> nat \<Rightarrow> field list \<Rightarrow> row \<Rightarrow> error + row" where
  "StructToMap_loop info v i [] m = Inr m"
| "StructToMap_loop info v i (f # fs) m =
     (case Field_val v i of
        None \<Rightarrow> Inl (Panic ''reflect: Field index out of range'')
      | Some fv \<Rightarrow>
          if Kind (ftype f) = KPtr \<and> Elem_val fv = None
          then StructToMap_loop info v (Suc i) fs m
          else
            (let (ft, fv) = (if Kind (ftype f) = KPtr
                             then (the (Elem_type (ftype f)), the (Elem_val fv))
                             else (ftype f, fv))
             in if \<not> exported f
                then Inl (Panic ''reflect.Value.Interface: unexported field'')
                else StructToMap_loop info v (Suc i) fs
                       (AList.update (Names_at info i) (Interface_of ft fv) m)))"

definition StructToMap :: "iface \<Rightarrow> pkg_state \<Rightarrow> (error + row) \<times> pkg_state" where
  "StructToMap obj s =
     (case obj of
        None \<Rightarrow> (Inl (Panic ''reflect: call of reflect.Value.Type on zero Value''), s)
      | Some (t0, v0) \<Rightarrow>
          (let (t, v) = (if Kind t0 = KPtr then (the (Elem_type t0), Elem_val v0)
                         else (t0, Some v0))
           in if Kind t \<noteq> KStruct then (Inl (Errorf msg_StructToMap []), s)
              else
                (let (info, s') = cached_info t s
                 in case v of
                      None \<Rightarrow>
                        (Inl (Panic ''reflect: call of reflect.Value.NumField on zero Value''), s')
                    | Some sv \<Rightarrow> (StructToMap_loop info sv 0 (fields_of t) [], s'))))"

text \<open>
  The loop of \<^verbatim>\<open>FillStructWith\<close> over the row, in the order the map is ranged over.
  \<open>t0\<close> is the dynamic type of \<open>entity\<close> (a pointer type), \<open>fs\<close> the fields of the struct
  type, \<open>v\<close> the struct the pointer leads to (\<open>None\<close> for a nil pointer). The result is
  the error and the struct as the loop leaves it.
\<close>

fun FillStructWith_loop ::
  "structInfo \<Rightarrow> gtype \<Rightarrow> field list \<Rightarrow> gval option \<Rightarrow> row \<Rightarrow> error option \<times> gval option" where
  "FillStructWith_loop info t0 fs v [] = (None, v)"
| "FillStructWith_loop info t0 fs v ((colName, attr) # dbRow) =
     (let idx = Index_at info colName in
      case v of
        None \<Rightarrow> (Some (Panic ''reflect: call of reflect.Value.Field on zero Value''), v)
      | Some sv \<Rightarrow>
          if length fs \<le> idx \<or> Field_val sv idx = None
          then (Some (Panic ''reflect: Field index out of range''), v)
          else
            (let fieldType = ftype (fs ! idx) in
             case attr of
               None \<Rightarrow> (Some (Panic ''reflect: call of reflect.Value.Type on zero Value''), v)
             | Some (at, av) \<Rightarrow>
                 if \<not> ConvertibleTo at fieldType
                 then (Some (Errorf msg_Fill_convert [ArgS colName, ArgV fieldType, ArgT t0]), v)
                 else if \<not> exported (fs ! idx)
                 then (Some (Panic ''reflect.Value.Set: unexported field''), v)
                 else FillStructWith_loop info t0 fs
                        (Some (set_Field sv idx (Convert at av fieldType))) dbRow))"

text \<open>
  \<^verbatim>\<open>FillStructWith\<close> returns its error and, since it writes through the pointer it is
  given, the entity as the call leaves it.
\<close>

definition FillStructWith ::
  "iface \<Rightarrow> row \<Rightarrow> pkg_state \<Rightarrow> (error option \<times> iface) \<times> pkg_state" where
  "FillStructWith entity dbRow s =
     (case entity of
        None \<Rightarrow> ((Some (Panic ''reflect: call of reflect.Value.Type on zero Value''), entity), s)
      | Some (t0, v0) \<Rightarrow>
          if Kind t0 \<noteq> KPtr then ((Some (Errorf msg_Fill_not_ptr [ArgT t0]), entity), s)
          else
            (let t = the (Elem_type t0); v = Elem_val v0
             in if Kind t \<noteq> KStruct
                then ((Some (Errorf msg_Fill_not_struct [ArgT t0]), entity), s)
                else
                  (let (info, s') = cached_info t s;
                       (err, v') = FillStructWith_loop info t0 (fields_of t) v dbRow
                   in ((err, Some (t0, (case v' of None \<Rightarrow> v0 | Some sv \<Rightarrow> VPtr (Some sv)))), s'))))"

text \<open>
  \<^verbatim>\<open>decodeAsSliceOfStructs\<close>: the argument must be a pointer to a slice of structs or of
  pointers to structs. It returns the pointer, the struct type and whether the elements are
  pointers.
\<close>

definition decodeAsSliceOfStructs :: "iface \<Rightarrow> error + ((gtype \<times> gval) \<times> gtype \<times> bool)" where
  "decodeAsSliceOfStructs sliceV =
     (case sliceV of
        None \<Rightarrow> Inl (Panic ''reflect: call of reflect.Value.Type on zero Value'')
      | Some (slicePtrType, slicePtrValue) \<Rightarrow>
          if Kind slicePtrType \<noteq> KPtr then Inl (Errorf msg_List_not_ptr [ArgT slicePtrType])
          else
            (let t = the (Elem_type slicePtrType)
             in if Kind t \<noteq> KSlice then Inl (Errorf msg_List_not_slice [ArgT slicePtrType])
                else
                  (let elemType = the (Elem_type t);
                       isPtr = (Kind elemType = KPtr);
                       elemType = (if isPtr then the (Elem_type elemType) else elemType)
                   in if Kind elemType \<noteq> KStruct
                      then Inl (Errorf msg_List_not_structs [ArgT slicePtrType])
                      else Inr ((slicePtrType, slicePtrValue), elemType, isPtr))))"

text \<open>
  The element that \<^verbatim>\<open>FillSliceWith\<close> and \<^verbatim>\<open>QueryChunks\<close> append when the slice is too
  short: \<^verbatim>\<open>reflect.New(structType)\<close>, dereferenced unless the slice holds pointers.
\<close>

definition new_elem :: "gtype \<Rightarrow> bool \<Rightarrow> gval" where
  "new_elem structType isSliceOfPtrs =
     (if isSliceOfPtrs then VPtr (Some (zero_val structType)) else zero_val structType)"

definition elem_type :: "gtype \<Rightarrow> bool \<Rightarrow> gtype" where
  "elem_type structType isSliceOfPtrs = (if isSliceOfPtrs then TPtr structType else structType)"

definition grow :: "gtype \<Rightarrow> bool \<Rightarrow> gval list \<Rightarrow> nat \<Rightarrow> gval list" where
  "grow structType isSliceOfPtrs sliceV idx =
     (if length sliceV \<le> idx then sliceV @ [new_elem structType isSliceOfPtrs] else sliceV)"

fun pointee :: "iface \<Rightarrow> gval \<Rightarrow> gval" where
  "pointee (Some (_, VPtr (Some x))) d = x"
| "pointee _ d = d"

fun FillSliceWith_loop ::
  "gtype \<Rightarrow> bool \<Rightarrow> nat \<Rightarrow> row list \<Rightarrow> gval list \<Rightarrow> pkg_state
     \<Rightarrow> (error option \<times> gval list) \<times> pkg_state" where
  "FillSliceWith_loop structType isSliceOfPtrs idx [] sliceV s = ((None, sliceV), s)"
| "FillSliceWith_loop structType isSliceOfPtrs idx (row # dbRows) sliceV s =
     (let sliceV = grow structType isSliceOfPtrs sliceV idx
      in if length sliceV \<le> idx
         then ((Some (Panic ''reflect: slice index out of range''), sliceV), s)
         else
           (let ((err, ent), s') =
                  FillStructWith
                    (Some (TPtr (elem_type structType isSliceOfPtrs), VPtr (Some (sliceV ! idx))))
                    row s;
                sliceV = sliceV[idx := pointee ent (sliceV ! idx)]
            in case err of
                 Some e \<Rightarrow> ((Some e, sliceV), s')
               | None \<Rightarrow> FillSliceWith_loop structType isSliceOfPtrs (Suc idx) dbRows sliceV s'))"

text \<open>
  \<^verbatim>\<open>FillSliceWith\<close> returns its error and the argument as the call leaves it. On an
  error the slice variable keeps its length; its elements were written in place.
\<close>

definition FillSliceWith ::
  "iface \<Rightarrow> row list \<Rightarrow> pkg_state \<Rightarrow> (error option \<times> iface) \<times> pkg_state" where
  "FillSliceWith entities dbRows s =
     (case decodeAsSliceOfStructs entities of
        Inl err \<Rightarrow> ((Some err, entities), s)
      | Inr ((pt, pv), structType, isSliceOfPtrs) \<Rightarrow>
          (let (info, s1) = cached_info structType s
           in case Elem_val pv of
                Some (VSlice elems) \<Rightarrow>
                  (let ((err, sliceV), s2) =
                         FillSliceWith_loop structType isSliceOfPtrs 0 dbRows elems s1
                   in case err of
                        None \<Rightarrow> ((None, Some (pt, VPtr (Some (VSlice sliceV)))), s2)
                      | Some e \<Rightarrow>
                          ((Some e, Some (pt, VPtr (Some (VSlice (take (length elems) sliceV))))),
                           s2))
              | _ \<Rightarrow> ((Some (Panic ''reflect: call on zero Value''), entities), s1)))"

section \<open>The client\<close>

text \<open>
  A client holds a table name and a pointer to the gorm connection; \<open>'db\<close> is the type of
  such pointers. \<^verbatim>\<open>ChangeTable\<close> has a value receiver and returns a pointer to a client
  that it allocates: the model passes the store of allocated clients, a list indexed by
  address, and returns the new address with the new store. The context argument is unused.
\<close>

record 'db Client =
  tableName :: string
  db :: 'db

definition ChangeTable :: "'db Client \<Rightarrow> string \<Rightarrow> 'db Client list \<Rightarrow> nat \<times> 'db Client list" where
  "ChangeTable c name store = (length store, store @ [\<lparr>tableName = name, db = db c\<rparr>])"

text \<open>
  The gorm collaborator of \<^verbatim>\<open>Delete\<close> and \<^verbatim>\<open>Update\<close>. Each request is recorded in a log
  of calls; the collaborator answers a request, given the requests before it, with an error
  or with none.
\<close>

datatype db_call =
    DeleteCall string iface
  | UpdatesCall string iface row

type_synonym gorm = "db_call list \<Rightarrow> db_call \<Rightarrow> error option"

fun Delete :: "'db Client \<Rightarrow> gorm \<Rightarrow> iface list \<Rightarrow> db_call list \<Rightarrow> error option \<times> db_call list" where
  "Delete c g [] log = (None, log)"
| "Delete c g (id' # ids) log =
     (let call = DeleteCall (tableName c) id'
      in case g log call of
           Some e \<Rightarrow> (Some e, log @ [call])
         | None \<Rightarrow> Delete c g ids (log @ [call]))"

fun Update ::
  "'db Client \<Rightarrow> gorm \<Rightarrow> iface list \<Rightarrow> db_call list \<Rightarrow> pkg_state
     \<Rightarrow> (error option \<times> db_call list) \<times> pkg_state" where
  "Update c g [] log s = ((None, log), s)"
| "Update c g (item # items) log s =
     (case StructToMap item s of
        (Inl err, s') \<Rightarrow> ((Some err, log), s')
      | (Inr m, s') \<Rightarrow>
          (let m = AList.delete ''id'' m;
               call = UpdatesCall (tableName c) item m
           in case g log call of
                Some e \<Rightarrow> ((Some e, log @ [call]), s')
              | None \<Rightarrow> Update c g items (log @ [call]) s'))"

section \<open>The chunked query\<close>

text \<open>
  The gorm collaborator of one call of \<^verbatim>\<open>QueryChunks\<close>: the error that \<^verbatim>\<open>Raw\<close> leaves,
  the cursor or the error that \<^verbatim>\<open>Rows()\<close> returns (the cursor is the list of the rows it
  yields), and \<^verbatim>\<open>ScanRows\<close>, which reads the current row into the slice element it is
  pointed to: given the row, the type of the element and the element, it returns its error
  and the element as it leaves it.
\<close>

record 'r gorm_query =
  Raw_Error :: "error option"
  Rows_result :: "error + 'r list"
  ScanRows :: "'r \<Rightarrow> gtype \<Rightarrow> gval \<Rightarrow> error option \<times> gval"

text \<open>
  The fields of \<^verbatim>\<open>ChunkParser\<close> that \<^verbatim>\<open>QueryChunks\<close> reads. \<^verbatim>\<open>ForEachChunk\<close> is a closure
  without arguments that reads the slice variable \<^verbatim>\<open>Chunk\<close> points to: the model hands it
  the values that variable had at the earlier invocations and the value it has now.
\<close>

record ChunkParser =
  Query :: string
  Params :: "iface list"
  Chunk :: iface
  ChunkSize :: int
  ForEachChunk :: "gval list \<Rightarrow> gval \<Rightarrow> error option"

text \<open>What \<^verbatim>\<open>QueryChunks\<close> does to its collaborators, in order.\<close>

datatype event =
    DbRaw
  | DbRows
  | RowsNext
  | DbScanRows
  | RowsClose
  | ForEachChunkCall gval

fun chunks_seen :: "event list \<Rightarrow> gval list" where
  "chunks_seen [] = []"
| "chunks_seen (ForEachChunkCall v # es) = v # chunks_seen es"
| "chunks_seen (_ # es) = chunks_seen es"

text \<open>
  The slice variable of the caller and the local variable \<^verbatim>\<open>slice\<close> are two slice headers.
  They start equal; \<^verbatim>\<open>sliceRef.Elem().Set(slice)\<close> makes the caller's header equal to the
  local one again. The local slice is written in place at position \<open>idx\<close>, and
  \<^verbatim>\<open>reflect.Append\<close>, called when \<open>idx\<close> has reached its length, may move it to a new
  array. From one setting of the caller's variable to the next \<open>idx\<close> only grows, so the
  positions below the caller's length are written while both headers still share the array,
  and after an append only positions beyond it are written: at every moment the caller's
  variable holds the first \<open>n\<close> elements of the local slice, where \<open>n\<close> is the length of
  the caller's header. The model keeps the local slice \<open>sliceV\<close> and \<open>n\<close>. (What lies
  between the length and the capacity of the caller's slice is not modelled.)

  The body of the \<^verbatim>\<open>for\<close> loop for the row \<open>r\<close>. It returns the error on which the
  function returns, or the local variable \<open>idx\<close> as the body leaves it, in both cases
  with \<open>sliceV\<close>, \<open>n\<close> and the log. \<open>idx\<close> is a Go \<^verbatim>\<open>int\<close>; it counts rows and stays
  far below \<open>2 ^ 63\<close>, so the model counts in \<open>nat\<close>.
\<close>

definition QueryChunks_body ::
  "'r gorm_query \<Rightarrow> ChunkParser \<Rightarrow> gtype \<Rightarrow> bool \<Rightarrow> 'r \<Rightarrow> gval list \<Rightarrow> nat \<Rightarrow> nat
     \<Rightarrow> event list
     \<Rightarrow> (error \<times> gval list \<times> nat \<times> event list) + (gval list \<times> nat \<times> nat \<times> event list)" where
  "QueryChunks_body q parser structType isSliceOfPtrs r sliceV idx n log =
     (let sliceV = grow structType isSliceOfPtrs sliceV idx
      in if length sliceV \<le> idx
         then Inl (Panic ''reflect: slice index out of range'', sliceV, n, log)
         else
           (let (err, x) = ScanRows q r (elem_type structType isSliceOfPtrs) (sliceV ! idx);
                sliceV = sliceV[idx := x];
                log = log @ [DbScanRows]
            in case err of
                 Some e \<Rightarrow> Inl (e, sliceV, n, log)
               | None \<Rightarrow>
                   if int idx = ChunkSize parser - 1
                   then
                     (let idx = 0;
                          n = length sliceV;
                          chunk = VSlice sliceV
                      in case ForEachChunk parser (chunks_seen log) chunk of
                           Some e \<Rightarrow> Inl (e, sliceV, n, log @ [ForEachChunkCall chunk])
                         | None \<Rightarrow> Inr (sliceV, idx, n, log @ [ForEachChunkCall chunk]))
                   else Inr (sliceV, idx, n, log)))"

text \<open>
  The loop \<^verbatim>\<open>for ; rows.Next(); idx++\<close> over the rows the cursor still yields, followed by
  the statements after the loop. The post statement \<^verbatim>\<open>idx++\<close> runs after every body that
  did not return, on the \<open>idx\<close> that the body leaves.
\<close>

fun QueryChunks_loop ::
  "'r gorm_query \<Rightarrow> ChunkParser \<Rightarrow> gtype \<Rightarrow> bool \<Rightarrow> 'r list \<Rightarrow> gval list \<Rightarrow> nat \<Rightarrow> nat
     \<Rightarrow> event list \<Rightarrow> error option \<times> gval list \<times> nat \<times> event list" where
  "QueryChunks_loop q parser structType isSliceOfPtrs [] sliceV idx n log =
     (let log = log @ [RowsNext]
      in if 0 < idx
         then
           (let n = idx;
                chunk = VSlice (take idx sliceV)
            in (ForEachChunk parser (chunks_seen log) chunk, sliceV, n,
                log @ [ForEachChunkCall chunk]))
         else (None, sliceV, n, log))"
| "QueryChunks_loop q parser structType isSliceOfPtrs (r # rows) sliceV idx n log =
     (case QueryChunks_body q parser structType isSliceOfPtrs r sliceV idx n
             (log @ [RowsNext]) of
        Inl (err, sliceV, n, log) \<Rightarrow> (Some err, sliceV, n, log)
      | Inr (sliceV, idx, n, log) \<Rightarrow>
          QueryChunks_loop q parser structType isSliceOfPtrs rows sliceV (Suc idx) n log)"

text \<open>
  \<^verbatim>\<open>QueryChunks\<close> returns its error, the argument \<^verbatim>\<open>parser.Chunk\<close> as the call leaves
  it, and the log. The deferred \<^verbatim>\<open>rows.Close()\<close> ends every path that obtained a cursor. A
  nil pointer to a slice makes \<^verbatim>\<open>slice.Len()\<close> panic at the first row.
\<close>

definition QueryChunks ::
  "'db Client \<Rightarrow> 'r gorm_query \<Rightarrow> ChunkParser \<Rightarrow> error option \<times> iface \<times> event list" where
  "QueryChunks c q parser =
     (case Raw_Error q of
        Some err \<Rightarrow> (Some err, Chunk parser, [DbRaw])
      | None \<Rightarrow>
          (case Rows_result q of
             Inl err \<Rightarrow> (Some err, Chunk parser, [DbRaw, DbRows])
           | Inr rows \<Rightarrow>
               (case decodeAsSliceOfStructs (Chunk parser) of
                  Inl err \<Rightarrow> (Some err, Chunk parser, [DbRaw, DbRows, RowsClose])
                | Inr ((pt, pv), structType, isSliceOfPtrs) \<Rightarrow>
                    (case Elem_val pv of
                       Some (VSlice elems) \<Rightarrow>
                         (let (err, sliceV, n, log) =
                                QueryChunks_loop q parser structType isSliceOfPtrs rows elems 0
                                  (length elems) [DbRaw, DbRows]
                          in (err, Some (pt, VPtr (Some (VSlice (take n sliceV)))),
                              log @ [RowsClose]))
                     | _ \<Rightarrow>
                         (if rows = []
                          then (None, Chunk parser, [DbRaw, DbRows, RowsNext, RowsClose])
                          else (Some (Panic ''reflect: call of reflect.Value.Len on zero Value''),
                                Chunk parser, [DbRaw, DbRows, RowsNext, RowsClose]))))))"

section \<open>Well-formed package states and the values used in examples\<close>

text \<open>
  The cache is only ever written with the result of \<^verbatim>\<open>getTagNames\<close> for its key; a state
  in which this holds is what a run of the program can reach.
\<close>

definition cache_ok :: "pkg_state \<Rightarrow> bool" where
  "cache_ok s = (\<forall>(t, info) \<in> set (tagInfoCache s). info = getTagNames t)"

text \<open>\<^verbatim>\<open>len\<close> of a slice, and the lengths of the buffers the callback was invoked with.\<close>

fun Len :: "gval \<Rightarrow> nat" where
  "Len (VSlice vs) = length vs"
| "Len _ = 0"

definition chunk_lengths :: "error option \<times> iface \<times> event list \<Rightarrow> nat list" where
  "chunk_lengths res = map Len (chunks_seen (snd (snd res)))"

text \<open>
  \<^verbatim>\<open>type User struct { ID int `gorm:"id"`; Name string `gorm:"name"`; Email *string `gorm:"email"` }\<close>
\<close>

definition User_type :: gtype where
  "User_type = TStruct ''User''
     [Field ''ID'' True ''id'' TInt, Field ''Name'' True ''name'' TString,
      Field ''Email'' True ''email'' (TPtr TString)]"

definition user :: "64 word \<Rightarrow> gval" where
  "user i = VStruct [VInt i, VString [], VPtr None]"

text \<open>A cursor over the given users, whose \<^verbatim>\<open>ScanRows\<close> stores the user in the element.\<close>

definition example_query :: "gval list \<Rightarrow> gval gorm_query" where
  "example_query rows =
     \<lparr>Raw_Error = None, Rows_result = Inr rows, ScanRows = (\<lambda>r t e. (None, r))\<rparr>"

text \<open>A chunk parser with an empty slice of users and a callback that never fails.\<close>

definition example_parser :: "int \<Rightarrow> ChunkParser" where
  "example_parser k =
     \<lparr>Query = ''SELECT * FROM users'', Params = [],
      Chunk = Some (TPtr (TSlice User_type), VPtr (Some (VSlice []))),
      ChunkSize = k, ForEachChunk = (\<lambda>seen chunk. None)\<rparr>"

definition example_client :: "unit Client" where
  "example_client = \<lparr>tableName = ''users'', db = ()\<rparr>"


definition Account_type :: gtype where
  "Account_type = TStruct ''Account''
     [Field ''UserID'' True ''user_id'' TInt, Field ''Name'' True ''name'' TString]"

definition Note_type :: gtype where
  "Note_type = TStruct ''Note''
     [Field ''ID'' True ''id'' TInt, Field ''Body'' True ''body'' TInterface]"

definition gorm_ok :: gorm where
  "gorm_ok log call = None"

section \<open>Shapes of arguments, and sequences of calls\<close>

text \<open>
  The shapes the operations ask of their argument: a struct or a pointer to a struct
  (\<^verbatim>\<open>StructToMap\<close>), a pointer to a struct (\<^verbatim>\<open>FillStructWith\<close>), a pointer to a slice of
  structs or of pointers to structs (\<^verbatim>\<open>FillSliceWith\<close>, \<^verbatim>\<open>QueryChunks\<close>).
\<close>

fun is_struct_or_ptr_to_struct :: "gtype \<Rightarrow> bool" where
  "is_struct_or_ptr_to_struct (TStruct _ _) = True"
| "is_struct_or_ptr_to_struct (TPtr (TStruct _ _)) = True"
| "is_struct_or_ptr_to_struct _ = False"

fun is_ptr_to_struct :: "gtype \<Rightarrow> bool" where
  "is_ptr_to_struct (TPtr (TStruct _ _)) = True"
| "is_ptr_to_struct _ = False"

fun is_ptr_to_slice_of_structs :: "gtype \<Rightarrow> bool" where
  "is_ptr_to_slice_of_structs (TPtr (TSlice (TStruct _ _))) = True"
| "is_ptr_to_slice_of_structs (TPtr (TSlice (TPtr (TStruct _ _)))) = True"
| "is_ptr_to_slice_of_structs _ = False"

text \<open>
  A call of one of the three operations that look a descriptor up, and the package state
  after a sequence of such calls. \<open>scan_inv\<close> is the invariant of the cache and the probe:
  every type is scanned at most once, and the types scanned are the types in the cache.
\<close>

datatype codec_call =
    StructToMapCall iface
  | FillStructWithCall iface row
  | FillSliceWithCall iface "row list"

fun run_call :: "codec_call \<Rightarrow> pkg_state \<Rightarrow> pkg_state" where
  "run_call (StructToMapCall obj) s = snd (StructToMap obj s)"
| "run_call (FillStructWithCall entity dbRow) s = snd (FillStructWith entity dbRow s)"
| "run_call (FillSliceWithCall entities dbRows) s = snd (FillSliceWith entities dbRows s)"

fun run_calls :: "codec_call list \<Rightarrow> pkg_state \<Rightarrow> pkg_state" where
  "run_calls [] s = s"
| "run_calls (c # cs) s = run_calls cs (run_call c s)"

definition scan_inv :: "pkg_state \<Rightarrow> bool" where
  "scan_inv s =
     (cache_ok s \<and> distinct (scanned s) \<and> set (scanned s) = fst ` set (tagInfoCache s))"

section \<open>Properties\<close>

subsection \<open>Descriptors\<close>

text \<open>
  What \<^verbatim>\<open>getTagNames\<close> computes: \<open>Names\<close> gives every position its tag (and the empty
  string of a missing key to an untagged position), \<open>Index\<close> gives a tag a position
  that carries it, and with pairwise distinct tags the position that carries it.
\<close>

lemma Names_loop:
  "map_of (Names (getTagNames_loop i fs info)) j =
     (if i \<le> j \<and> j < i + length fs \<and> ftag (fs ! (j - i)) \<noteq> []
      then Some (ftag (fs ! (j - i))) else map_of (Names info) j)"
proof (induction fs arbitrary: i info)
  case Nil
  then show ?case by auto
next
  case (Cons f fs)
  have nth: "i < j \<Longrightarrow> (f # fs) ! (j - i) = fs ! (j - Suc i)"
    by (simp add: nth_Cons')
  show ?case
    using nth by (cases "i < j") (auto simp add: Cons.IH update_conv' not_less)
qed

lemma Names_at_getTagNames:
  "Names_at (getTagNames t) j = (if j < length (fields_of t) then ftag (fields_of t ! j) else [])"
  by (simp add: Names_at_def getTagNames_def Names_loop)

lemma Index_loop_other:
  "c \<notin> ftag ` set fs \<Longrightarrow>
   map_of (Index (getTagNames_loop i fs info)) c = map_of (Index info) c"
  by (induction fs arbitrary: i info) (auto simp: update_conv')



lemma update_fresh: "k \<notin> fst ` set al \<Longrightarrow> AList.update k v al = al @ [(k, v)]"
  by (induction al) auto

lemma cached_info_unfold:
  "cached_info t s =
     (case map_of (tagInfoCache s) t of
        Some info \<Rightarrow> (info, s)
      | None \<Rightarrow>
          (getTagNames t,
           s\<lparr>tagInfoCache := AList.update t (getTagNames t) (tagInfoCache s),
             scanned := scanned s @ [t]\<rparr>))"
  by (simp add: cached_info_def getTagNames_call_def split: option.splits)


lemma cached_info_ok: "cache_ok s \<Longrightarrow> fst (cached_info t s) = getTagNames t"
  by (auto simp: cached_info_unfold cache_ok_def Let_def split: option.splits dest!: map_of_SomeD)

lemma cached_info_preserves: "cache_ok s \<Longrightarrow> cache_ok (snd (cached_info t s))"
  by (auto simp: cached_info_unfold cache_ok_def Let_def update_fresh map_of_eq_None_iff
           split: option.splits)





lemma Index_loop_sound:
  "map_of (Index (getTagNames_loop i fs info)) c = Some j \<Longrightarrow>
   map_of (Index info) c = Some j \<or> (i \<le> j \<and> j < i + length fs \<and> ftag (fs ! (j - i)) = c)"
proof (induction fs arbitrary: i info)
  case Nil
  then show ?case by simp
next
  case (Cons f fs)
  show ?case
  proof (cases "ftag f = []")
    case True
    with Cons.prems have "map_of (Index (getTagNames_loop (Suc i) fs info)) c = Some j" by simp
    from Cons.IH[OF this] show ?thesis
      by (auto simp: nth_Cons' Suc_le_eq)
  next
    case False
    let ?info = "info\<lparr>Names := AList.update i (ftag f) (Names info),
                   Index := AList.update (ftag f) i (Index info)\<rparr>"
    from False Cons.prems have "map_of (Index (getTagNames_loop (Suc i) fs ?info)) c = Some j"
      by simp
    from Cons.IH[OF this] show ?thesis
      by (auto simp: nth_Cons' Suc_le_eq update_conv' split: if_splits)
  qed
qed

lemma Index_loop_known:
  "c \<in> ftag ` set fs \<Longrightarrow> c \<noteq> [] \<Longrightarrow> map_of (Index (getTagNames_loop i fs info)) c \<noteq> None"
proof (induction fs arbitrary: i info)
  case Nil
  then show ?case by simp
next
  case (Cons f fs)
  show ?case
  proof (cases "c \<in> ftag ` set fs")
    case True
    then show ?thesis using Cons.IH Cons.prems(2) by simp
  next
    case False
    with Cons.prems have c: "c = ftag f" by auto
    with Cons.prems(2) False show ?thesis
      by (simp add: Index_loop_other update_conv')
  qed
qed

lemma Index_at_known:
  assumes "c \<in> ftag ` set (fields_of t)" "c \<noteq> []"
  shows "Index_at (getTagNames t) c < length (fields_of t)
         \<and> ftag (fields_of t ! Index_at (getTagNames t) c) = c"
proof -
  from Index_loop_known[OF assms, of 0 "\<lparr>Names = [], Index = []\<rparr>"]
  obtain j where j: "map_of (Index (getTagNames t)) c = Some j"
    by (auto simp: getTagNames_def)
  then have "j < length (fields_of t) \<and> ftag (fields_of t ! j) = c"
    using Index_loop_sound[of 0 "fields_of t" "\<lparr>Names = [], Index = []\<rparr>" c j]
    by (simp add: getTagNames_def)
  with j show ?thesis by (simp add: Index_at_def)
qed

subsection \<open>The descriptor cache\<close>

lemma scan_inv_init: "scan_inv init_state"
  by (simp add: scan_inv_def cache_ok_def init_state_def)

lemma scan_inv_cached_info: "scan_inv s \<Longrightarrow> scan_inv (snd (cached_info t s))"
proof (cases "map_of (tagInfoCache s) t")
  case None
  assume inv: "scan_inv s"
  from None have fresh: "t \<notin> fst ` set (tagInfoCache s)" by (simp add: map_of_eq_None_iff)
  with inv have "t \<notin> set (scanned s)" by (auto simp: scan_inv_def)
  with inv fresh None show ?thesis
    using cached_info_preserves[of s t]
    by (auto simp: scan_inv_def cached_info_unfold Let_def dom_update)
next
  case (Some info)
  assume "scan_inv s"
  with Some show ?thesis by (simp add: cached_info_unfold)
qed

lemma StructToMap_state:
  "snd (StructToMap obj s) = s \<or> (\<exists>t. snd (StructToMap obj s) = snd (cached_info t s))"
  by (auto simp: StructToMap_def Let_def case_prod_beta split: option.splits)

lemma FillStructWith_state:
  "snd (FillStructWith entity dbRow s) = s
   \<or> (\<exists>t. snd (FillStructWith entity dbRow s) = snd (cached_info t s))"
  by (auto simp: FillStructWith_def Let_def case_prod_beta split: option.splits)

lemma scan_inv_StructToMap: "scan_inv s \<Longrightarrow> scan_inv (snd (StructToMap obj s))"
  using StructToMap_state[of obj s] scan_inv_cached_info[of s] by auto

lemma scan_inv_FillStructWith: "scan_inv s \<Longrightarrow> scan_inv (snd (FillStructWith entity dbRow s))"
  using FillStructWith_state[of entity dbRow s] scan_inv_cached_info[of s] by auto

lemma scan_inv_FillSliceWith_loop:
  "scan_inv s \<Longrightarrow> scan_inv (snd (FillSliceWith_loop structType isPtrs idx dbRows sliceV s))"
proof (induction dbRows arbitrary: idx sliceV s)
  case Nil
  then show ?case by simp
next
  case (Cons row dbRows)
  let ?sl = "grow structType isPtrs sliceV idx"
  let ?r = "FillStructWith (Some (TPtr (elem_type structType isPtrs), VPtr (Some (?sl ! idx)))) row s"
  have inv': "scan_inv (snd ?r)" using Cons.prems by (rule scan_inv_FillStructWith)
  show ?case
  proof (cases "length ?sl \<le> idx")
    case True
    with Cons.prems show ?thesis by (simp add: Let_def)
  next
    case False
    show ?thesis
    proof (cases "fst (fst ?r)")
      case None
      with False show ?thesis
        using Cons.IH[OF inv'] by (simp add: Let_def case_prod_beta)
    next
      case (Some e)
      with False inv' show ?thesis by (simp add: Let_def case_prod_beta)
    qed
  qed
qed

lemma scan_inv_FillSliceWith: "scan_inv s \<Longrightarrow> scan_inv (snd (FillSliceWith entities dbRows s))"
proof -
  assume inv: "scan_inv s"
  show ?thesis
  proof (cases "decodeAsSliceOfStructs entities")
    case (Inl e)
    with inv show ?thesis by (simp add: FillSliceWith_def)
  next
    case (Inr r)
    obtain pt pv structType isPtrs where r: "r = ((pt, pv), structType, isPtrs)"
      by (cases r) auto
    let ?s1 = "snd (cached_info structType s)"
    have inv1: "scan_inv ?s1" using inv by (rule scan_inv_cached_info)
    have loop: "scan_inv (snd (FillSliceWith_loop structType isPtrs 0 dbRows elems ?s1))" for elems
      using inv1 by (rule scan_inv_FillSliceWith_loop)
    show ?thesis
      using Inr r inv1 loop
      by (auto simp: FillSliceWith_def case_prod_beta Let_def split: option.splits gval.splits)
  qed
qed

lemma scan_inv_run_calls: "scan_inv s \<Longrightarrow> scan_inv (run_calls cs s)"
proof (induction cs arbitrary: s)
  case Nil
  then show ?case by simp
next
  case (Cons c cs)
  have "scan_inv (run_call c s)"
    using Cons.prems
    by (cases c) (simp_all add: scan_inv_StructToMap scan_inv_FillStructWith scan_inv_FillSliceWith)
  then show ?case using Cons.IH by simp
qed

lemma distinct_count_le_1: "distinct xs \<Longrightarrow> count_list xs x \<le> 1"
  by (induction xs) (auto simp: count_list_0_iff)

lemma cached_info_twice:
  "cached_info t (snd (cached_info t s)) = (fst (cached_info t s), snd (cached_info t s))"
  by (auto simp: cached_info_unfold Let_def update_conv' split: option.splits)

lemma cached_info_keys:
  "fst ` set (tagInfoCache (snd (cached_info t s))) = insert t (fst ` set (tagInfoCache s))"
proof (cases "map_of (tagInfoCache s) t")
  case None
  then show ?thesis by (simp add: cached_info_unfold dom_update)
next
  case (Some info)
  then have "t \<in> fst ` set (tagInfoCache s)"
    by (metis domI dom_map_of_conv_image_fst)
  with Some show ?thesis by (auto simp: cached_info_unfold)
qed

lemma StructToMap_keeps:
  "T \<in> fst ` set (tagInfoCache s) \<Longrightarrow> T \<in> fst ` set (tagInfoCache (snd (StructToMap obj s)))"
  using StructToMap_state[of obj s] by (force simp: cached_info_keys)

lemma FillStructWith_keeps:
  "T \<in> fst ` set (tagInfoCache s) \<Longrightarrow>
   T \<in> fst ` set (tagInfoCache (snd (FillStructWith entity dbRow s)))"
  using FillStructWith_state[of entity dbRow s] by (force simp: cached_info_keys)

lemma FillSliceWith_loop_keeps:
  "T \<in> fst ` set (tagInfoCache s) \<Longrightarrow>
   T \<in> fst ` set (tagInfoCache (snd (FillSliceWith_loop structType isPtrs idx dbRows sliceV s)))"
proof (induction dbRows arbitrary: idx sliceV s)
  case Nil
  then show ?case by simp
next
  case (Cons row dbRows)
  let ?sl = "grow structType isPtrs sliceV idx"
  let ?r = "FillStructWith (Some (TPtr (elem_type structType isPtrs), VPtr (Some (?sl ! idx)))) row s"
  have keep: "T \<in> fst ` set (tagInfoCache (snd ?r))"
    using Cons.prems by (rule FillStructWith_keeps)
  show ?case
  proof (cases "length ?sl \<le> idx")
    case True
    with Cons.prems show ?thesis by (simp add: Let_def)
  next
    case False
    show ?thesis
    proof (cases "fst (fst ?r)")
      case None
      with False show ?thesis
        using Cons.IH[OF keep] by (simp add: Let_def case_prod_beta)
    next
      case (Some e)
      with False keep show ?thesis by (simp add: Let_def case_prod_beta)
    qed
  qed
qed

lemma StructToMap_caches:
  "Kind T = KStruct \<Longrightarrow> T \<in> fst ` set (tagInfoCache (snd (StructToMap (Some (T, v)) s)))"
  by (simp add: StructToMap_def case_prod_beta cached_info_keys)

lemma FillStructWith_caches:
  "Kind T = KStruct \<Longrightarrow>
   T \<in> fst ` set (tagInfoCache (snd (FillStructWith (Some (TPtr T, v)) dbRow s)))"
  by (simp add: FillStructWith_def case_prod_beta Let_def cached_info_keys)

lemma FillSliceWith_caches:
  assumes "Kind T = KStruct"
  shows "T \<in> fst ` set (tagInfoCache (snd (FillSliceWith (Some (TPtr (TSlice T), v)) dbRows s)))"
proof -
  have dec: "decodeAsSliceOfStructs (Some (TPtr (TSlice T), v)) = Inr ((TPtr (TSlice T), v), T, False)"
    using assms by (simp add: decodeAsSliceOfStructs_def Let_def)
  let ?s1 = "snd (cached_info T s)"
  have s1: "T \<in> fst ` set (tagInfoCache ?s1)" by (simp add: cached_info_keys)
  have loop: "T \<in> fst ` set (tagInfoCache (snd (FillSliceWith_loop T False 0 dbRows elems ?s1)))"
    for elems
    using s1 by (rule FillSliceWith_loop_keeps)
  show ?thesis
    using dec s1 loop
    by (auto simp: FillSliceWith_def case_prod_beta Let_def split: option.splits gval.splits)
qed

lemma scan_inv_run_call: "scan_inv s \<Longrightarrow> scan_inv (run_call c s)"
  by (cases c) (simp_all add: scan_inv_StructToMap scan_inv_FillStructWith scan_inv_FillSliceWith)

lemma run_calls_snoc: "run_calls (cs @ [c]) s = run_call c (run_calls cs s)"
  by (induction cs arbitrary: s) simp_all

lemma distinct_count_1: "distinct xs \<Longrightarrow> x \<in> set xs \<Longrightarrow> count_list xs x = 1"
  by (induction xs) (auto simp: count_list_0_iff)

lemma scanned_once:
  "scan_inv s \<Longrightarrow> T \<in> fst ` set (tagInfoCache s) \<Longrightarrow> count_list (scanned s) T = 1"
  by (simp add: scan_inv_def distinct_count_1)

lemma cached_info_hit:
  "map_of (tagInfoCache s) T = Some info \<Longrightarrow> cached_info T s = (info, s)"
  by (simp add: cached_info_unfold)

lemma cached_info_miss:
  "map_of (tagInfoCache s) T = None \<Longrightarrow>
   cached_info T s =
     (getTagNames T,
      s\<lparr>tagInfoCache := AList.update T (getTagNames T) (tagInfoCache s),
        scanned := scanned s @ [T]\<rparr>)
   \<and> map_of (tagInfoCache (snd (cached_info T s))) T = Some (getTagNames T)"
  by (simp add: cached_info_unfold update_conv')

text \<open>
  C8. Start from the empty cache and run any sequence \<open>cs\<close> of calls of
  \<^verbatim>\<open>StructToMap\<close>, \<^verbatim>\<open>FillStructWith\<close> and \<^verbatim>\<open>FillSliceWith\<close>. Every type \<open>T\<close> has
  been scanned by \<^verbatim>\<open>getTagNames\<close> at most once; a lookup for \<open>T\<close> in the state reached
  returns the descriptor \<^verbatim>\<open>getTagNames\<close> computes for \<open>T\<close>, whenever it is made; a
  lookup that follows a lookup for \<open>T\<close> returns the same descriptor and leaves the state,
  the list of scans included, as it is; and once \<open>T\<close> has been looked up it has been
  scanned exactly once. In any state, a lookup that finds \<open>T\<close> in the cache returns the
  stored descriptor and changes nothing, and a lookup that does not find it scans \<open>T\<close>
  (one more entry of the probe) and stores the descriptor under \<open>T\<close>. Each of the three
  operations, given a value of struct type \<open>T\<close> in the shape it asks for, looks \<open>T\<close>
  up: after it, \<open>T\<close> has been scanned exactly once, whatever calls came before.
\<close>

theorem descriptor_cache_scans_once:
  "count_list (scanned (run_calls cs init_state)) T \<le> 1
   \<and> fst (cached_info T (run_calls cs init_state)) = getTagNames T
   \<and> cached_info T (snd (cached_info T s)) = (fst (cached_info T s), snd (cached_info T s))
   \<and> count_list (scanned (snd (cached_info T (run_calls cs init_state)))) T = 1
   \<and> (map_of (tagInfoCache s) T = Some info \<longrightarrow> cached_info T s = (info, s))
   \<and> (map_of (tagInfoCache s) T = None \<longrightarrow>
        cached_info T s =
          (getTagNames T,
           s\<lparr>tagInfoCache := AList.update T (getTagNames T) (tagInfoCache s),
             scanned := scanned s @ [T]\<rparr>)
        \<and> map_of (tagInfoCache (snd (cached_info T s))) T = Some (getTagNames T))
   \<and> (Kind T = KStruct \<longrightarrow>
        count_list (scanned (run_calls (cs @ [StructToMapCall (Some (T, v))]) init_state)) T = 1
        \<and> count_list (scanned (run_calls (cs @ [FillStructWithCall (Some (TPtr T, v)) dbRow])
                                  init_state)) T = 1
        \<and> count_list (scanned (run_calls (cs @ [FillSliceWithCall (Some (TPtr (TSlice T), v)) dbRows])
                                  init_state)) T = 1)"
proof -
  let ?s = "run_calls cs init_state"
  have inv: "scan_inv ?s"
    using scan_inv_init by (rule scan_inv_run_calls)
  then have d: "distinct (scanned ?s)" and ok: "cache_ok ?s"
    by (simp_all add: scan_inv_def)
  from d have c1: "count_list (scanned ?s) T \<le> 1"
    by (rule distinct_count_le_1)
  from ok have c2: "fst (cached_info T ?s) = getTagNames T"
    by (rule cached_info_ok)
  have c3: "cached_info T (snd (cached_info T s)) = (fst (cached_info T s), snd (cached_info T s))"
    by (rule cached_info_twice)
  have c4: "count_list (scanned (snd (cached_info T ?s))) T = 1"
    using scan_inv_cached_info[OF inv, of T] by (intro scanned_once) (simp_all add: cached_info_keys)
  have c5: "map_of (tagInfoCache s) T = Some info \<longrightarrow> cached_info T s = (info, s)"
    using cached_info_hit by blast
  have c6: "map_of (tagInfoCache s) T = None \<longrightarrow>
        cached_info T s =
          (getTagNames T,
           s\<lparr>tagInfoCache := AList.update T (getTagNames T) (tagInfoCache s),
             scanned := scanned s @ [T]\<rparr>)
        \<and> map_of (tagInfoCache (snd (cached_info T s))) T = Some (getTagNames T)"
    using cached_info_miss by blast
  have after: "count_list (scanned (run_calls (cs @ [c]) init_state)) T = 1"
    if "T \<in> fst ` set (tagInfoCache (run_call c ?s))" for c
    using that scan_inv_run_call[OF inv, of c] by (simp add: run_calls_snoc scanned_once)
  have c7: "Kind T = KStruct \<longrightarrow>
        count_list (scanned (run_calls (cs @ [StructToMapCall (Some (T, v))]) init_state)) T = 1
        \<and> count_list (scanned (run_calls (cs @ [FillStructWithCall (Some (TPtr T, v)) dbRow])
                                  init_state)) T = 1
        \<and> count_list (scanned (run_calls (cs @ [FillSliceWithCall (Some (TPtr (TSlice T), v)) dbRows])
                                  init_state)) T = 1"
  proof
    assume k: "Kind T = KStruct"
    show "count_list (scanned (run_calls (cs @ [StructToMapCall (Some (T, v))]) init_state)) T = 1
        \<and> count_list (scanned (run_calls (cs @ [FillStructWithCall (Some (TPtr T, v)) dbRow])
                                  init_state)) T = 1
        \<and> count_list (scanned (run_calls (cs @ [FillSliceWithCall (Some (TPtr (TSlice T), v)) dbRows])
                                  init_state)) T = 1"
      using k by (intro conjI after) (simp_all add: StructToMap_caches FillStructWith_caches FillSliceWith_caches)
  qed
  from c1 c2 c3 c4 c5 c6 c7 show ?thesis by blast
qed

text \<open>
  C8, an instance: the first lookup for \<^verbatim>\<open>User\<close> in the empty cache scans the type and
  stores the descriptor, the second returns the stored descriptor and changes nothing, and
  after two calls that encode or decode a \<^verbatim>\<open>User\<close> the type has been scanned once.
\<close>

theorem descriptor_cache_scans_once_witness:
  "map_of (tagInfoCache init_state) User_type = None
   \<and> cached_info User_type init_state =
       (getTagNames User_type,
        \<lparr>tagInfoCache = [(User_type, getTagNames User_type)], scanned = [User_type]\<rparr>)
   \<and> map_of (tagInfoCache (snd (cached_info User_type init_state))) User_type
       = Some (getTagNames User_type)
   \<and> cached_info User_type (snd (cached_info User_type init_state))
       = (getTagNames User_type, snd (cached_info User_type init_state))
   \<and> Kind User_type = KStruct
   \<and> count_list (scanned (run_calls [StructToMapCall (Some (User_type, user 1)),
                                      StructToMapCall (Some (User_type, user 2))] init_state))
        User_type = 1
   \<and> count_list (scanned (run_calls [StructToMapCall (Some (User_type, user 1)),
                                      FillStructWithCall (Some (TPtr User_type, VPtr (Some (user 2)))) []]
                              init_state))
        User_type = 1"
proof -
  have none: "map_of (tagInfoCache init_state) User_type = None"
    by (simp add: init_state_def)
  have k: "Kind User_type = KStruct" by (simp add: User_type_def)
  note miss = descriptor_cache_scans_once[of "[]" User_type init_state "getTagNames User_type"
      "user 1" "[]" "[]"]
  note hit = descriptor_cache_scans_once[of "[]" User_type "snd (cached_info User_type init_state)"
      "getTagNames User_type" "user 1" "[]" "[]"]
  note two = descriptor_cache_scans_once[of "[StructToMapCall (Some (User_type, user 1))]" User_type
      init_state "getTagNames User_type" "user 2" "[]" "[]"]
  note two' = descriptor_cache_scans_once[of "[StructToMapCall (Some (User_type, user 1))]" User_type
      init_state "getTagNames User_type" "VPtr (Some (user 2))" "[]" "[]"]
  from miss none have m: "cached_info User_type init_state =
       (getTagNames User_type,
        init_state\<lparr>tagInfoCache := AList.update User_type (getTagNames User_type) (tagInfoCache init_state),
             scanned := scanned init_state @ [User_type]\<rparr>)"
    and m2: "map_of (tagInfoCache (snd (cached_info User_type init_state))) User_type
       = Some (getTagNames User_type)"
    by blast+
  from hit m2 have h: "cached_info User_type (snd (cached_info User_type init_state))
       = (getTagNames User_type, snd (cached_info User_type init_state))"
    by blast
  from two k have t1: "count_list (scanned (run_calls [StructToMapCall (Some (User_type, user 1)),
                                      StructToMapCall (Some (User_type, user 2))] init_state))
        User_type = 1"
    by simp
  from two' k have t2: "count_list (scanned (run_calls [StructToMapCall (Some (User_type, user 1)),
                                      FillStructWithCall (Some (TPtr User_type, VPtr (Some (user 2)))) []]
                              init_state))
        User_type = 1"
    by simp
  from m have m': "cached_info User_type init_state =
       (getTagNames User_type,
        \<lparr>tagInfoCache = [(User_type, getTagNames User_type)], scanned = [User_type]\<rparr>)"
    by (simp add: init_state_def)
  from none m' m2 h k t1 t2 show ?thesis by blast
qed

subsection \<open>Encoding a record, and updates\<close>

lemma StructToMap_loop_step:
  "StructToMap_loop info (VStruct vals) i (f # fs) m = Inr m' \<Longrightarrow>
   i < length vals \<and>
   (if Kind (ftype f) = KPtr \<and> Elem_val (vals ! i) = None
    then StructToMap_loop info (VStruct vals) (Suc i) fs m = Inr m'
    else \<exists>e. StructToMap_loop info (VStruct vals) (Suc i) fs
                (AList.update (Names_at info i) e m) = Inr m')"
  by (cases "i < length vals"; cases "Kind (ftype f) = KPtr \<and> Elem_val (vals ! i) = None";
      cases "exported f") (auto simp add: Let_def case_prod_beta)

lemma StructToMap_loop_no_key:
  "StructToMap_loop info (VStruct vals) i fs m = Inr m' \<Longrightarrow> c \<notin> fst ` set m \<Longrightarrow>
   (\<forall>k < length fs. Names_at info (i + k) = c \<longrightarrow>
        Kind (ftype (fs ! k)) = KPtr \<and> Elem_val (vals ! (i + k)) = None) \<Longrightarrow>
   c \<notin> fst ` set m'"
proof (induction fs arbitrary: i m)
  case Nil
  then show ?case by simp
next
  case (Cons f fs)
  have rest: "\<forall>k < length fs. Names_at info (Suc i + k) = c \<longrightarrow>
        Kind (ftype (fs ! k)) = KPtr \<and> Elem_val (vals ! (Suc i + k)) = None"
  proof (intro allI impI)
    fix k assume "k < length fs" "Names_at info (Suc i + k) = c"
    then have "Suc k < length (f # fs)" "Names_at info (i + Suc k) = c" by simp_all
    with Cons.prems(3) have "Kind (ftype ((f # fs) ! Suc k)) = KPtr \<and> Elem_val (vals ! (i + Suc k)) = None"
      by blast
    then show "Kind (ftype (fs ! k)) = KPtr \<and> Elem_val (vals ! (Suc i + k)) = None" by simp
  qed
  have first: "Names_at info i = c \<longrightarrow> Kind (ftype f) = KPtr \<and> Elem_val (vals ! i) = None"
    using Cons.prems(3)[rule_format, of 0] by simp
  note step = StructToMap_loop_step[OF Cons.prems(1)]
  show ?case
  proof (cases "Kind (ftype f) = KPtr \<and> Elem_val (vals ! i) = None")
    case True
    with step have "StructToMap_loop info (VStruct vals) (Suc i) fs m = Inr m'" by simp
    from Cons.IH[OF this Cons.prems(2) rest] show ?thesis .
  next
    case False
    with step obtain e where
      e: "StructToMap_loop info (VStruct vals) (Suc i) fs (AList.update (Names_at info i) e m) = Inr m'"
      by auto
    from False first have "Names_at info i \<noteq> c" by blast
    with Cons.prems(2) have "c \<notin> fst ` set (AList.update (Names_at info i) e m)"
      by (simp add: dom_update)
    from Cons.IH[OF e this rest] show ?thesis .
  qed
qed

lemma StructToMap_struct:
  "Kind t = KStruct \<Longrightarrow> obj = Some (t, sv) \<or> obj = Some (TPtr t, VPtr (Some sv)) \<Longrightarrow>
   StructToMap obj s =
     (StructToMap_loop (fst (cached_info t s)) sv 0 (fields_of t) [], snd (cached_info t s))"
  by (cases t) (auto simp: StructToMap_def case_prod_beta)

lemma StructToMap_no_key:
  assumes "cache_ok s"
    and "obj = Some (TStruct n fs, VStruct vals) \<or> obj = Some (TPtr (TStruct n fs), VPtr (Some (VStruct vals)))"
    and "fst (StructToMap obj s) = Inr m"
    and "\<forall>k < length fs. ftag (fs ! k) = c \<longrightarrow>
           Kind (ftype (fs ! k)) = KPtr \<and> Elem_val (vals ! k) = None"
  shows "c \<notin> fst ` set m"
proof -
  have info: "fst (cached_info (TStruct n fs) s) = getTagNames (TStruct n fs)"
    using assms(1) by (rule cached_info_ok)
  have "StructToMap obj s = (StructToMap_loop (fst (cached_info (TStruct n fs) s)) (VStruct vals) 0
          (fields_of (TStruct n fs)) [], snd (cached_info (TStruct n fs) s))"
    using assms(2) by (intro StructToMap_struct) simp_all
  with assms(3) info
  have loop: "StructToMap_loop (getTagNames (TStruct n fs)) (VStruct vals) 0 fs [] = Inr m"
    by simp
  have "\<forall>k < length fs. Names_at (getTagNames (TStruct n fs)) (0 + k) = c \<longrightarrow>
           Kind (ftype (fs ! k)) = KPtr \<and> Elem_val (vals ! (0 + k)) = None"
    using assms(4) by (simp add: Names_at_getTagNames)
  with loop show ?thesis
    by (intro StructToMap_loop_no_key[of "getTagNames (TStruct n fs)" vals 0 fs "[]" m c]) simp_all
qed

lemma Update_log:
  "fst (Update c g items log s) = (err, log') \<Longrightarrow> UpdatesCall tbl item m \<in> set log' \<Longrightarrow>
   UpdatesCall tbl item m \<in> set log \<or> ''id'' \<notin> fst ` set m"
proof (induction items arbitrary: log s)
  case Nil
  then show ?case by simp
next
  case (Cons it items)
  obtain r s' where r: "StructToMap it s = (r, s')" by (cases "StructToMap it s")
  show ?case
  proof (cases r)
    case (Inl e)
    with Cons.prems r show ?thesis by simp
  next
    case (Inr m0)
    define call where "call = UpdatesCall (tableName c) it (AList.delete ''id'' m0)"
    have new: "UpdatesCall tbl item m \<in> set (log @ [call]) \<Longrightarrow>
               UpdatesCall tbl item m \<in> set log \<or> ''id'' \<notin> fst ` set m"
      using delete_notin_dom[of "''id''" m0] by (auto simp: call_def)
    show ?thesis
    proof (cases "g log call")
      case None
      with Cons.prems(1) r Inr have "fst (Update c g items (log @ [call]) s') = (err, log')"
        by (simp add: Let_def call_def)
      from Cons.IH[OF this Cons.prems(2)] new show ?thesis by blast
    next
      case (Some e)
      with Cons.prems(1) r Inr have "log' = log @ [call]" by (simp add: Let_def call_def)
      with Cons.prems(2) new show ?thesis by blast
    qed
  qed
qed

text \<open>
  C4, as amended. (1) When the record (given by value or through a pointer) is encoded
  and field \<open>i\<close> is a nil pointer, the row has no key for the tag of field \<open>i\<close>,
  unless another field carries the same tag and is present. (2) No row that \<^verbatim>\<open>Update\<close>
  sends to the collaborator has the key \<^verbatim>\<open>id\<close>.
\<close>

theorem encode_update_exclusion:
  "(cache_ok s
     \<and> (obj = Some (TStruct n fs, VStruct vals)
        \<or> obj = Some (TPtr (TStruct n fs), VPtr (Some (VStruct vals))))
     \<and> fst (StructToMap obj s) = Inr m \<and> i < length fs
     \<and> (\<forall>j < length fs. ftag (fs ! j) = ftag (fs ! i) \<longrightarrow>
            Kind (ftype (fs ! j)) = KPtr \<and> vals ! j = VPtr None)
     \<longrightarrow> ftag (fs ! i) \<notin> fst ` set m)
   \<and> (fst (Update c g items [] s') = (err, log) \<and> UpdatesCall tbl item m' \<in> set log
     \<longrightarrow> ''id'' \<notin> fst ` set m')"
proof (intro conjI impI)
  assume a: "cache_ok s
     \<and> (obj = Some (TStruct n fs, VStruct vals)
        \<or> obj = Some (TPtr (TStruct n fs), VPtr (Some (VStruct vals))))
     \<and> fst (StructToMap obj s) = Inr m \<and> i < length fs
     \<and> (\<forall>j < length fs. ftag (fs ! j) = ftag (fs ! i) \<longrightarrow>
            Kind (ftype (fs ! j)) = KPtr \<and> vals ! j = VPtr None)"
  then have "\<forall>k < length fs. ftag (fs ! k) = ftag (fs ! i) \<longrightarrow>
           Kind (ftype (fs ! k)) = KPtr \<and> Elem_val (vals ! k) = None"
    by simp
  with a show "ftag (fs ! i) \<notin> fst ` set m"
    by (intro StructToMap_no_key[of s obj n fs vals m]) simp_all
next
  assume "fst (Update c g items [] s') = (err, log) \<and> UpdatesCall tbl item m' \<in> set log"
  then show "''id'' \<notin> fst ` set m'"
    using Update_log[of c g items "[]" s' err log tbl item m'] by simp
qed

text \<open>
  C4, an instance: \<^verbatim>\<open>User{ID: 1, Name: "Ann", Email: nil}\<close> is encoded without the key
  \<^verbatim>\<open>email\<close>, and \<^verbatim>\<open>Update\<close> sends the row \<^verbatim>\<open>{"name": "Ann"}\<close>.
\<close>

theorem encode_update_exclusion_witness:
  "cache_ok init_state
   \<and> fst (StructToMap (Some (User_type, VStruct [VInt 1, VString ''Ann'', VPtr None])) init_state)
       = Inr [(''id'', Some (TInt, VInt 1)), (''name'', Some (TString, VString ''Ann''))]
   \<and> ''email'' \<notin> fst ` set [(''id'', Some (TInt, VInt (1 :: 64 word))),
                               (''name'', Some (TString, VString ''Ann''))]
   \<and> fst (Update example_client gorm_ok
             [Some (User_type, VStruct [VInt 1, VString ''Ann'', VPtr None])] [] init_state)
       = (None, [UpdatesCall ''users'' (Some (User_type, VStruct [VInt 1, VString ''Ann'', VPtr None]))
                   [(''name'', Some (TString, VString ''Ann''))]])
   \<and> ''id'' \<notin> fst ` set [(''name'', Some (TString, VString ''Ann''))]"
proof -
  let ?fs = "[Field ''ID'' True ''id'' TInt, Field ''Name'' True ''name'' TString,
      Field ''Email'' True ''email'' (TPtr TString)]"
  let ?vals = "[VInt 1, VString ''Ann'', VPtr None]"
  let ?obj = "Some (User_type, VStruct ?vals)"
  let ?m = "[(''id'', Some (TInt, VInt 1)), (''name'', Some (TString, VString ''Ann''))]"
  let ?m' = "[(''name'', Some (TString, VString ''Ann''))]"
  let ?log = "[UpdatesCall ''users'' ?obj ?m']"
  have ok: "cache_ok init_state" by (simp add: cache_ok_def init_state_def)
  have enc: "fst (StructToMap ?obj init_state) = Inr ?m" by code_simp
  have upd: "fst (Update example_client gorm_ok [?obj] [] init_state) = (None, ?log)" by code_simp
  have nil: "\<forall>j < length ?fs. ftag (?fs ! j) = ftag (?fs ! 2) \<longrightarrow>
            Kind (ftype (?fs ! j)) = KPtr \<and> ?vals ! j = VPtr None"
    by (simp add: less_Suc_eq numeral_3_eq_3 numeral_2_eq_2)
  have "''email'' \<notin> fst ` set ?m \<and> ''id'' \<notin> fst ` set ?m'"
    using encode_update_exclusion[of init_state ?obj "''User''" ?fs ?vals ?m 2 example_client gorm_ok "[?obj]"
        init_state None ?log "''users''" ?obj ?m'] ok enc upd nil
    by (simp add: User_type_def)
  with ok enc upd show ?thesis by simp
qed

text \<open>
  C4, as stated, fails: the identifier column of \<^verbatim>\<open>Account\<close> is named \<^verbatim>\<open>user_id\<close>, and
  \<^verbatim>\<open>Update\<close> sends it to the collaborator; only the key \<^verbatim>\<open>id\<close> is removed.
\<close>

theorem Update_sends_identifier_not_named_id:
  "fst (Update example_client gorm_ok [Some (Account_type, VStruct [VInt 1, VString ''Ann''])] []
          init_state)
   = (None, [UpdatesCall ''users'' (Some (Account_type, VStruct [VInt 1, VString ''Ann'']))
               [(''user_id'', Some (TInt, VInt 1)), (''name'', Some (TString, VString ''Ann''))]])"
  by code_simp

subsection \<open>Encoding and decoding again\<close>





text \<open>
  A field of interface kind that holds nil is left out of the amended claim as a pointer
  field is: \<^verbatim>\<open>Note{1, nil}\<close> is encoded with the value nil for \<^verbatim>\<open>body\<close>, and decoding
  the row panics at that column, where \<^verbatim>\<open>attrValue.Type()\<close> is called on the zero
  \<^verbatim>\<open>reflect.Value\<close>.
\<close>

lemma roundtrip_panics_with_nil_interface_field:
  "fst (StructToMap (Some (Note_type, VStruct [VInt 1, VIface None])) init_state)
     = Inr [(''id'', Some (TInt, VInt 1)), (''body'', None)]
   \<and> fst (FillStructWith (Some (TPtr Note_type, VPtr (Some (zero_val Note_type))))
            [(''id'', Some (TInt, VInt 1)), (''body'', None)]
            (snd (StructToMap (Some (Note_type, VStruct [VInt 1, VIface None])) init_state)))
     = (Some (Panic ''reflect: call of reflect.Value.Type on zero Value''),
        Some (TPtr Note_type, VPtr (Some (VStruct [VInt 1, VIface None]))))"
  by code_simp

subsection \<open>Decoding a row\<close>

text \<open>
  C3 (the code departs from the claim). The row \<^verbatim>\<open>{"age": 42}\<close> names a column that the
  descriptor of \<^verbatim>\<open>User\<close> does not have. \<^verbatim>\<open>info.Index["age"]\<close> is the zero value 0, so the
  decode returns no error and writes 42 into the first field, \<^verbatim>\<open>ID\<close>.
\<close>

theorem FillStructWith_unknown_column_no_error:
  "fst (FillStructWith
          (Some (TPtr User_type, VPtr (Some (VStruct [VInt 7, VString ''Ann'', VPtr None]))))
          [(''age'', Some (TInt, VInt 42))] init_state)
   = (None, Some (TPtr User_type, VPtr (Some (VStruct [VInt 42, VString ''Ann'', VPtr None]))))"
  by code_simp

text \<open>
  C6 (the code departs from the claim). A \<^verbatim>\<open>bool\<close> and a \<^verbatim>\<open>[]int\<close> offered for the
  column \<^verbatim>\<open>name\<close> of type \<^verbatim>\<open>string\<close> are rejected with one and the same error: its
  arguments are the column name, the type of the destination field and the type of the entity
  pointer. The type of the source value is not part of the error.
\<close>

theorem FillStructWith_mismatch_error_lacks_source_type:
  "fst (fst (FillStructWith (Some (TPtr User_type, VPtr (Some (zero_val User_type))))
               [(''name'', Some (TBool, VBool True))] init_state))
     = Some (Errorf msg_Fill_convert [ArgS ''name'', ArgV TString, ArgT (TPtr User_type)])
   \<and> fst (fst (FillStructWith (Some (TPtr User_type, VPtr (Some (zero_val User_type))))
                 [(''name'', Some (TSlice TInt, VSlice []))] init_state))
     = Some (Errorf msg_Fill_convert [ArgS ''name'', ArgV TString, ArgT (TPtr User_type)])"
  by code_simp

text \<open>
  C7 (the code departs from the claim). Decoding the row \<^verbatim>\<open>{"name": "Bob", "age": 30}\<close>
  into \<^verbatim>\<open>User{7, "Ann", nil}\<close> changes the field \<^verbatim>\<open>ID\<close> from 7 to 30, although its
  column \<^verbatim>\<open>id\<close> is no key of the row.
\<close>

theorem FillStructWith_unknown_column_changes_other_field:
  "fst (FillStructWith
          (Some (TPtr User_type, VPtr (Some (VStruct [VInt 7, VString ''Ann'', VPtr None]))))
          [(''name'', Some (TString, VString ''Bob'')), (''age'', Some (TInt, VInt 30))]
          init_state)
   = (None, Some (TPtr User_type, VPtr (Some (VStruct [VInt 30, VString ''Bob'', VPtr None]))))"
  by code_simp

text \<open>
  What holds of a mismatch: a value that is not convertible to the type of its field stops
  the loop there, with the conversion error for that column and the struct as it was. What
  holds of the frame: the loop writes only the positions that \<open>Index\<close> gives the keys of
  the row, and when every key of the row is a tag of the struct type, a field whose tag is
  no key of the row keeps its value, whether the decode ends with an error or not.
\<close>

lemma FillStructWith_loop_mismatch:
  "Index_at info c < length fs \<Longrightarrow> Field_val sv (Index_at info c) \<noteq> None \<Longrightarrow>
   \<not> ConvertibleTo at (ftype (fs ! Index_at info c)) \<Longrightarrow>
   FillStructWith_loop info t0 fs (Some sv) ((c, Some (at, av)) # row) =
     (Some (Errorf msg_Fill_convert [ArgS c, ArgV (ftype (fs ! Index_at info c)), ArgT t0]),
      Some sv)"
  by (simp add: Let_def)

lemma FillStructWith_loop_step:
  "FillStructWith_loop info t0 fs (Some (VStruct cur)) ((c, a) # row) = (err, v') \<Longrightarrow>
   v' = Some (VStruct cur)
   \<or> (\<exists>x. FillStructWith_loop info t0 fs (Some (VStruct (cur[Index_at info c := x]))) row = (err, v'))"
  by (auto simp: Let_def split: if_splits option.splits)

lemma FillStructWith_loop_frame:
  "FillStructWith_loop info t0 fs (Some (VStruct cur)) row = (err, v') \<Longrightarrow>
   \<exists>res. v' = Some (VStruct res) \<and> length res = length cur
     \<and> (\<forall>k. k \<notin> Index_at info ` fst ` set row \<longrightarrow> res ! k = cur ! k)"
proof (induction row arbitrary: cur)
  case Nil
  then show ?case by auto
next
  case (Cons e row)
  obtain c a where e: "e = (c, a)" by (cases e)
  from FillStructWith_loop_step[OF Cons.prems[unfolded e]]
  show ?case
  proof
    assume "v' = Some (VStruct cur)"
    then show ?thesis by simp
  next
    assume "\<exists>x. FillStructWith_loop info t0 fs (Some (VStruct (cur[Index_at info c := x]))) row = (err, v')"
    then obtain x where
      "FillStructWith_loop info t0 fs (Some (VStruct (cur[Index_at info c := x]))) row = (err, v')"
      by blast
    from Cons.IH[OF this] obtain res where res: "v' = Some (VStruct res)"
      "length res = length cur"
      "\<forall>k. k \<notin> Index_at info ` fst ` set row \<longrightarrow> res ! k = cur[Index_at info c := x] ! k"
      by auto
    have "\<forall>k. k \<notin> Index_at info ` fst ` set (e # row) \<longrightarrow> res ! k = cur ! k"
      using res(3) by (auto simp: e)
    with res(1,2) show ?thesis by blast
  qed
qed

lemma FillStructWith_frame_known_columns:
  assumes "cache_ok s"
    and "\<forall>c \<in> fst ` set row. c \<in> ftag ` set fs \<and> c \<noteq> []"
    and "k < length fs" and "ftag (fs ! k) \<notin> fst ` set row"
  shows "\<exists>res. snd (fst (FillStructWith (Some (TPtr (TStruct n fs), VPtr (Some (VStruct cur)))) row s))
                  = Some (TPtr (TStruct n fs), VPtr (Some (VStruct res)))
               \<and> length res = length cur \<and> res ! k = cur ! k"
proof -
  let ?T = "TStruct n fs"
  let ?info = "getTagNames ?T"
  have info: "fst (cached_info ?T s) = ?info" using assms(1) by (rule cached_info_ok)
  obtain err v' where loop:
    "FillStructWith_loop ?info (TPtr ?T) fs (Some (VStruct cur)) row = (err, v')"
    by (cases "FillStructWith_loop ?info (TPtr ?T) fs (Some (VStruct cur)) row")
  from FillStructWith_loop_frame[OF loop] obtain res where res: "v' = Some (VStruct res)"
    "length res = length cur"
    "\<forall>j. j \<notin> Index_at ?info ` fst ` set row \<longrightarrow> res ! j = cur ! j"
    by blast
  have "k \<notin> Index_at ?info ` fst ` set row"
  proof
    assume "k \<in> Index_at ?info ` fst ` set row"
    then obtain c where c: "c \<in> fst ` set row" "k = Index_at ?info c" by blast
    with assms(2) have "c \<in> ftag ` set (fields_of ?T)" "c \<noteq> []" by auto
    from Index_at_known[OF this] c(2) have "ftag (fs ! k) = c" by simp
    with c(1) assms(4) show False by simp
  qed
  with res(3) have "res ! k = cur ! k" by blast
  with res(1,2) loop info show ?thesis
    by (simp add: FillStructWith_def case_prod_beta Let_def)
qed

subsection \<open>Arguments of the wrong shape\<close>

lemma StructToMap_wrong_shape:
  "\<not> is_struct_or_ptr_to_struct t \<Longrightarrow> StructToMap (Some (t, v)) s = (Inl (Errorf msg_StructToMap []), s)"
  by (cases t rule: is_struct_or_ptr_to_struct.cases) (simp_all add: StructToMap_def Let_def)

lemma FillStructWith_wrong_shape:
  "\<not> is_ptr_to_struct t \<Longrightarrow>
   \<exists>e. FillStructWith (Some (t, v)) row s = ((Some e, Some (t, v)), s) \<and> is_ShapeError e"
  by (cases t rule: is_ptr_to_struct.cases) (simp_all add: FillStructWith_def Let_def)

lemma decodeAsSliceOfStructs_wrong_shape:
  "\<not> is_ptr_to_slice_of_structs t \<Longrightarrow>
   \<exists>e. decodeAsSliceOfStructs (Some (t, v)) = Inl e \<and> is_ShapeError e"
  by (cases t rule: is_ptr_to_slice_of_structs.cases) (simp_all add: decodeAsSliceOfStructs_def Let_def)

lemma FillSliceWith_wrong_shape:
  assumes "\<not> is_ptr_to_slice_of_structs t"
  shows "\<exists>e. FillSliceWith (Some (t, v)) rows s = ((Some e, Some (t, v)), s) \<and> is_ShapeError e"
proof -
  from decodeAsSliceOfStructs_wrong_shape[OF assms] obtain e where
    "decodeAsSliceOfStructs (Some (t, v)) = Inl e" "is_ShapeError e" by blast
  then show ?thesis by (simp add: FillSliceWith_def)
qed

lemma QueryChunks_wrong_shape:
  assumes "\<not> is_ptr_to_slice_of_structs t" "Chunk parser = Some (t, v)"
    "Raw_Error q = None" "Rows_result q = Inr rows"
  shows "\<exists>e. QueryChunks c q parser = (Some e, Chunk parser, [DbRaw, DbRows, RowsClose]) \<and> is_ShapeError e"
proof -
  from decodeAsSliceOfStructs_wrong_shape[OF assms(1)] obtain e where
    "decodeAsSliceOfStructs (Some (t, v)) = Inl e" "is_ShapeError e" by blast
  then show ?thesis using assms(2,3,4) by (simp add: QueryChunks_def)
qed

text \<open>
  C5, as amended. A non-nil argument of the wrong shape makes \<^verbatim>\<open>StructToMap\<close>,
  \<^verbatim>\<open>FillStructWith\<close> and \<^verbatim>\<open>FillSliceWith\<close> return a ShapeError and leave the argument
  and the package state as they are (these functions have no collaborator to call).
  \<^verbatim>\<open>QueryChunks\<close> returns the ShapeError after it has issued the query, when \<^verbatim>\<open>Raw\<close>
  and \<^verbatim>\<open>Rows\<close> succeed: the collaborator has been called for \<^verbatim>\<open>Raw\<close>, \<^verbatim>\<open>Rows\<close> and
  the closing of the cursor, no row has been fetched and the callback has not run.
\<close>

theorem wrong_shape_ShapeError:
  "(\<not> is_struct_or_ptr_to_struct t \<longrightarrow>
      (\<exists>e. StructToMap (Some (t, v)) s = (Inl e, s) \<and> is_ShapeError e))
   \<and> (\<not> is_ptr_to_struct t \<longrightarrow>
      (\<exists>e. FillStructWith (Some (t, v)) row s = ((Some e, Some (t, v)), s) \<and> is_ShapeError e))
   \<and> (\<not> is_ptr_to_slice_of_structs t \<longrightarrow>
      (\<exists>e. FillSliceWith (Some (t, v)) rows s = ((Some e, Some (t, v)), s) \<and> is_ShapeError e))
   \<and> (\<not> is_ptr_to_slice_of_structs t \<and> Chunk parser = Some (t, v)
        \<and> Raw_Error q = None \<and> Rows_result q = Inr cursor \<longrightarrow>
      (\<exists>e. QueryChunks c q parser = (Some e, Chunk parser, [DbRaw, DbRows, RowsClose])
           \<and> is_ShapeError e))"
  using StructToMap_wrong_shape[of t v s] FillStructWith_wrong_shape[of t v row s]
    FillSliceWith_wrong_shape[of t v rows s] QueryChunks_wrong_shape[of t parser v q cursor c]
  by simp

text \<open>
  C5, instances: an \<^verbatim>\<open>int\<close> given to \<^verbatim>\<open>StructToMap\<close>, a \<^verbatim>\<open>User\<close> given by value to
  \<^verbatim>\<open>FillStructWith\<close>, a pointer to a \<^verbatim>\<open>[]int\<close> given to \<^verbatim>\<open>FillSliceWith\<close> and to
  \<^verbatim>\<open>QueryChunks\<close>.
\<close>

theorem wrong_shape_ShapeError_witness:
  "\<not> is_struct_or_ptr_to_struct TInt
   \<and> StructToMap (Some (TInt, VInt 5)) init_state = (Inl (Errorf msg_StructToMap []), init_state)
   \<and> \<not> is_ptr_to_struct User_type
   \<and> FillStructWith (Some (User_type, user 1)) [] init_state
       = ((Some (Errorf msg_Fill_not_ptr [ArgT User_type]), Some (User_type, user 1)), init_state)
   \<and> \<not> is_ptr_to_slice_of_structs (TPtr (TSlice TInt))
   \<and> FillSliceWith (Some (TPtr (TSlice TInt), VPtr (Some (VSlice [])))) [] init_state
       = ((Some (Errorf msg_List_not_structs [ArgT (TPtr (TSlice TInt))]),
           Some (TPtr (TSlice TInt), VPtr (Some (VSlice [])))), init_state)
   \<and> QueryChunks example_client (example_query [user 1])
        ((example_parser 3)\<lparr>Chunk := Some (TPtr (TSlice TInt), VPtr (Some (VSlice [])))\<rparr>)
       = (Some (Errorf msg_List_not_structs [ArgT (TPtr (TSlice TInt))]),
          Some (TPtr (TSlice TInt), VPtr (Some (VSlice []))), [DbRaw, DbRows, RowsClose])
   \<and> is_ShapeError (Errorf msg_StructToMap [])
   \<and> is_ShapeError (Errorf msg_Fill_not_ptr [ArgT User_type])
   \<and> is_ShapeError (Errorf msg_List_not_structs [ArgT (TPtr (TSlice TInt))])"
  using wrong_shape_ShapeError[of TInt "VInt 5" init_state "[]" "[]"
      "(example_parser 3)\<lparr>Chunk := Some (TPtr (TSlice TInt), VPtr (Some (VSlice [])))\<rparr>"
      "example_query [user 1]" "[user 1]" example_client]
    wrong_shape_ShapeError[of User_type "user 1" init_state "[]" "[]" "example_parser 3" "example_query []" "[]"
      example_client]
    wrong_shape_ShapeError[of "TPtr (TSlice TInt)" "VPtr (Some (VSlice []))" init_state "[]" "[]"
      "(example_parser 3)\<lparr>Chunk := Some (TPtr (TSlice TInt), VPtr (Some (VSlice [])))\<rparr>"
      "example_query [user 1]" "[user 1]" example_client]
  by (simp add: User_type_def StructToMap_def FillStructWith_def FillSliceWith_def QueryChunks_def
        decodeAsSliceOfStructs_def example_query_def example_parser_def)

text \<open>
  C5, as stated, fails: \<^verbatim>\<open>QueryChunks\<close> with a \<^verbatim>\<open>User\<close> by value as chunk returns its
  ShapeError with \<^verbatim>\<open>Raw\<close> and \<^verbatim>\<open>Rows\<close> already in the log of calls to the collaborator.
\<close>

theorem QueryChunks_ShapeError_after_query:
  "QueryChunks example_client (example_query [user 1])
     ((example_parser 3)\<lparr>Chunk := Some (User_type, user 0)\<rparr>)
   = (Some (Errorf msg_List_not_ptr [ArgT User_type]), Some (User_type, user 0),
      [DbRaw, DbRows, RowsClose])"
  by (simp add: QueryChunks_def example_query_def example_parser_def decodeAsSliceOfStructs_def
        User_type_def)

subsection \<open>Chunked query\<close>

lemma QueryChunks_no_rows:
  "Raw_Error q = None \<Longrightarrow> Rows_result q = Inr [] \<Longrightarrow>
   chunks_seen (snd (snd (QueryChunks c q parser))) = []"
  by (auto simp: QueryChunks_def Let_def split: sum.splits option.splits gval.splits prod.splits)

text \<open>
  C1 (the code departs from the claim). With a cursor of 3 rows and chunk size 3 the
  callback is invoked twice, with buffers of length 3 and 1, where the claim has one
  invocation; with 7 rows and chunk size 3 it is invoked four times, with buffers of length
  3, 3, 3 and 1, where the claim has three invocations of length 3, 3 and 1. After a full
  chunk the body sets \<^verbatim>\<open>idx = 0\<close> and the post statement of the loop makes it 1, so the
  next chunk starts at position 1 and the test \<^verbatim>\<open>idx > 0\<close> after the loop succeeds although
  nothing is pending.
\<close>

theorem QueryChunks_extra_callback:
  "chunk_lengths (QueryChunks example_client (example_query [user 1, user 2, user 3])
                    (example_parser 3)) = [3, 1]
   \<and> chunk_lengths (QueryChunks example_client
                      (example_query [user 1, user 2, user 3, user 4, user 5, user 6, user 7])
                      (example_parser 3)) = [3, 3, 3, 1]"
  by code_simp

subsection \<open>The client\<close>

text \<open>
  C9. \<^verbatim>\<open>ChangeTable\<close> returns the address of a newly allocated client (an address no
  client had before) whose table name is the given name and whose connection is that of the
  receiver; every client that existed before the call, the receiver among them, is as it
  was.
\<close>

theorem ChangeTable_new_client:
  "fst (ChangeTable c n store) = length store
   \<and> length (snd (ChangeTable c n store)) = Suc (length store)
   \<and> take (length store) (snd (ChangeTable c n store)) = store
   \<and> tableName (snd (ChangeTable c n store) ! fst (ChangeTable c n store)) = n
   \<and> db (snd (ChangeTable c n store) ! fst (ChangeTable c n store)) = db c"
  by (simp add: ChangeTable_def)

text \<open>
  C10. \<^verbatim>\<open>Update\<close> and \<^verbatim>\<open>Delete\<close> with no items return no error and leave the log of
  requests to the collaborator, and the package state, as they were.
\<close>

theorem Update_Delete_no_items:
  "Update c g [] log s = ((None, log), s) \<and> Delete c g [] log = (None, log)"
  by simp

end
